theory Spec2Isabelle
  imports Complex_Main
begin

section \<open>The matrix type of Matrix.cpp\<close>

text \<open>
  A \<open>Matrix\<close> holds \<open>double values[3][3]\<close>. The cells are modelled as real numbers
  (the arithmetic of the source is read as exact arithmetic), the array as a list of three
  rows of three cells. \<open>val m i j\<close> reads \<open>values[i][j]\<close>, \<open>val_upd m i j x\<close> is the
  assignment \<open>values[i][j] = x\<close>.
\<close>

type_synonym Matrix = "real list list"

definition is_3x3 :: "Matrix \<Rightarrow> bool" where
  "is_3x3 m = (length m = 3 \<and> list_all (\<lambda>r. length r = 3) m)"

definition val :: "Matrix \<Rightarrow> nat \<Rightarrow> nat \<Rightarrow> real" where
  "val m i j = m ! i ! j"

definition val_upd :: "Matrix \<Rightarrow> nat \<Rightarrow> nat \<Rightarrow> real \<Rightarrow> Matrix" where
  "val_upd m i j x = m[i := (m ! i)[j := x]]"

text \<open>\<open>Matrix::Matrix (double d)\<close>: both loops run over 0, 1, 2 and assign every cell once.\<close>

definition Matrix_diag :: "real \<Rightarrow> Matrix" where
  "Matrix_diag d = map (\<lambda>i. map (\<lambda>j. if i = j then d else 0) [0..<3]) [0..<3]"

text \<open>
  \<open>Matrix::set (double v[], unsigned size)\<close>. The array is a list; the source reads
  \<open>v[i]\<close> unchecked for \<open>i < min(size, 9)\<close>, so the caller has to supply that many elements.
\<close>

definition set_array :: "real list \<Rightarrow> nat \<Rightarrow> Matrix \<Rightarrow> Matrix" where
  "set_array v size0 m =
     (let size = min size0 9;
          m1 = fold (\<lambda>i m'. val_upd m' (i div 3) (i mod 3) (v ! i)) [0..<size] m
      in fold (\<lambda>i m'. val_upd m' (i div 3) (i mod 3) (if i mod 4 \<noteq> 0 then 0 else 1)) [size..<9] m1)"

text \<open>
  \<open>Matrix::set (const vector<double> &v)\<close>: the size is \<open>(unsigned)v.size()\<close>, the
  conversion to a 32-bit unsigned written out.
\<close>

definition set_vector :: "real list \<Rightarrow> Matrix \<Rightarrow> Matrix" where
  "set_vector v m =
     (let size = min (length v mod 2 ^ 32) 9;
          m1 = fold (\<lambda>i m'. val_upd m' (i div 3) (i mod 3) (v ! i)) [0..<size] m
      in fold (\<lambda>i m'. val_upd m' (i div 3) (i mod 3) (if i mod 4 \<noteq> 0 then 0 else 1)) [size..<9] m1)"

text \<open>
  Modelled from the spec: the default arguments of the constructors, which the header
  Matrix.h declares and which is not among the sources. \<open>Matrix ret;\<close> in \<open>rmultiply\<close>
  and the base-class part of the derived constructors use \<open>Matrix (double d)\<close> without an
  argument; the specification has the product cell as the sum over \<open>k\<close> of the products of
  cells, so the sum starts at 0 and the default is \<open>d = 0\<close>. \<open>Matrix t(v)\<close> in \<open>flip\<close> and
  \<open>Matrix tm(v)\<close> in \<open>parse\<close> pass an array of nine values without a size; the
  specification has up to nine values filled in, so the default is \<open>size = 9\<close>.
\<close>

definition Matrix_default :: Matrix where
  "Matrix_default = Matrix_diag 0"

definition default_size :: nat where
  "default_size = 9"

text \<open>
  The constructors \<open>Matrix (double v[], unsigned size)\<close> and \<open>Matrix (const vector<double>&)\<close>
  call \<open>set\<close> on the new object, which assigns all nine cells; the derived constructors
  call \<open>set\<close> after the default constructor of the base class.
\<close>

definition Matrix_array :: "real list \<Rightarrow> nat \<Rightarrow> Matrix" where
  "Matrix_array v size0 = set_array v size0 Matrix_default"

definition Matrix_vector :: "real list \<Rightarrow> Matrix" where
  "Matrix_vector v = set_vector v Matrix_default"

definition TranslationMatrix :: "real \<Rightarrow> real \<Rightarrow> Matrix" where
  "TranslationMatrix tx ty = set_array [1, 0, tx, 0, 1, ty] 6 Matrix_default"

definition ScalingMatrix :: "real \<Rightarrow> real \<Rightarrow> Matrix" where
  "ScalingMatrix sx sy = set_array [sx, 0, 0, 0, sy] 5 Matrix_default"

definition deg2rad :: "real \<Rightarrow> real" where
  "deg2rad deg = (let PI = arccos (- 1) in PI * deg / 180)"

definition RotationMatrix :: "real \<Rightarrow> Matrix" where
  "RotationMatrix deg =
     (let rad = deg2rad deg; c = cos rad; s = sin rad
      in set_array [c, - s, 0, s, c] 5 Matrix_default)"

text \<open>
  \<open>Matrix::rmultiply\<close>: \<open>ret\<close> starts as \<open>Matrix()\<close>, the three loops add
  \<open>tm.values[i][k] * values[k][j]\<close> to \<open>ret.values[i][j]\<close>, and \<open>ret\<close> becomes the new
  value of the receiver \<open>m\<close>.
\<close>

definition rmultiply :: "Matrix \<Rightarrow> Matrix \<Rightarrow> Matrix" where
  "rmultiply tm m =
     fold (\<lambda>i. fold (\<lambda>j. fold (\<lambda>k ret.
         val_upd ret i j (val ret i j + val tm i k * val m k j)) [0..<3]) [0..<3]) [0..<3]
       Matrix_default"

text \<open>\<open>Matrix::lmultiply\<close>: the same loops with \<open>values[i][k] * tm.values[k][j]\<close>.\<close>

definition lmultiply :: "Matrix \<Rightarrow> Matrix \<Rightarrow> Matrix" where
  "lmultiply tm m =
     fold (\<lambda>i. fold (\<lambda>j. fold (\<lambda>k ret.
         val_upd ret i j (val ret i j + val m i k * val tm k j)) [0..<3]) [0..<3]) [0..<3]
       Matrix_default"

definition translate :: "real \<Rightarrow> real \<Rightarrow> Matrix \<Rightarrow> Matrix" where
  "translate tx ty m = (if tx \<noteq> 0 \<or> ty \<noteq> 0 then rmultiply (TranslationMatrix tx ty) m else m)"

definition scale :: "real \<Rightarrow> real \<Rightarrow> Matrix \<Rightarrow> Matrix" where
  "scale sx sy m = (if sx \<noteq> 1 \<or> sy \<noteq> 1 then rmultiply (ScalingMatrix sx sy) m else m)"

definition rotate_deg :: "real \<Rightarrow> Matrix \<Rightarrow> Matrix" where
  "rotate_deg deg m = rmultiply (RotationMatrix deg) m"

definition xskew :: "real \<Rightarrow> Matrix \<Rightarrow> Matrix" where
  "xskew deg m =
     (let t = tan (deg2rad deg)
      in if t \<noteq> 0 then rmultiply (Matrix_array [1, t] 2) m else m)"

definition yskew :: "real \<Rightarrow> Matrix \<Rightarrow> Matrix" where
  "yskew deg m =
     (let t = tan (deg2rad deg)
      in if t \<noteq> 0 then rmultiply (Matrix_array [1, 0, 0, t] 4) m else m)"

definition flip :: "bool \<Rightarrow> real \<Rightarrow> Matrix \<Rightarrow> Matrix" where
  "flip haxis a m =
     (let s = (if haxis then - 1 else 1);
          v = [- s, 0, (if haxis then 0 else 2 * a), 0, s, (if haxis then 2 * a else 0), 0, 0, 1]
      in rmultiply (Matrix_array v default_size) m)"

text \<open>
  \<open>Matrix::operator * (const DPair &p)\<close>: rows 0 and 1 of the matrix times \<open>(x, y, 1)\<close>.
\<close>

definition apply_point :: "Matrix \<Rightarrow> real \<times> real \<Rightarrow> real \<times> real" where
  "apply_point m p =
     (let pp = [fst p, snd p, 1];
          ret = fold (\<lambda>i. fold (\<lambda>j r. r[i := r ! i + val m i j * pp ! j]) [0..<3]) [0..<2] [0, 0]
      in (ret ! 0, ret ! 1))"

text \<open>
  \<open>Matrix::operator ==\<close>: the loops return false at the first differing cell of rows 0
  and 1, and true when there is none.
\<close>

definition matrix_eq :: "Matrix \<Rightarrow> Matrix \<Rightarrow> bool" where
  "matrix_eq a b = list_all (\<lambda>i. list_all (\<lambda>j. \<not> (val a i j \<noteq> val b i j)) [0..<3]) [0..<2]"

text \<open>
  \<open>Matrix::isTranslation\<close>: the output parameters \<open>tx\<close>, \<open>ty\<close> are assigned first; the
  result is the triple (tx, ty, returned boolean).
\<close>

definition isTranslation :: "Matrix \<Rightarrow> real \<times> real \<times> bool" where
  "isTranslation m =
     (let tx = val m 0 2; ty = val m 1 2
      in (tx, ty,
          if list_ex (\<lambda>i. list_ex (\<lambda>j. let v = val m i j in
                (i = j \<and> v \<noteq> 1) \<or> (i \<noteq> j \<and> v \<noteq> 0)) [0..<2]) [0..<3]
          then False
          else val m 2 2 = 1))"


section \<open>Formatting\<close>

text \<open>The file's own \<open>round (double x, int n)\<close>.\<close>

definition round_n :: "real \<Rightarrow> int \<Rightarrow> real" where
  "round_n x n = (let pow10 = 10 powr (real_of_int n) in real_of_int \<lfloor>x * pow10 + 0.5\<rfloor> / pow10)"

text \<open>
  \<open>Matrix::getSVG\<close>. How \<open>operator<<\<close> of the C++ library prints a \<open>double\<close> is not part
  of this file; it is the parameter \<open>fmt\<close>.
\<close>

definition getSVG :: "(real \<Rightarrow> string) \<Rightarrow> Matrix \<Rightarrow> string" where
  "getSVG fmt m =
     fold (\<lambda>i. fold (\<lambda>j oss.
         (if i > 0 \<or> j > 0 then oss @ '' '' else oss) @ fmt (round_n (val m j i) 3)) [0..<2]) [0..<3]
       ''matrix(''
     @ '')''"

section \<open>Input streams\<close>

text \<open>
  The part of \<open>std::istream\<close> the parser uses, over a string buffer: the characters not
  yet extracted and the two state bits a string stream can set. \<open>peek\<close> and \<open>get\<close>
  return an \<open>int\<close>, here a \<open>char option\<close> with \<open>None\<close> for \<open>EOF\<close>. Both construct a
  sentry first, which sets \<open>failbit\<close> when the stream is not \<open>good()\<close>; at the end of the
  buffer \<open>peek\<close> sets \<open>eofbit\<close> and \<open>get\<close> sets \<open>eofbit\<close> and \<open>failbit\<close>.
\<close>

record istream =
  buf :: string
  eofbit :: bool
  failbit :: bool

definition istringstream :: "string \<Rightarrow> istream" where
  "istringstream str = \<lparr>buf = str, eofbit = False, failbit = False\<rparr>"

definition good :: "istream \<Rightarrow> bool" where
  "good s = (\<not> eofbit s \<and> \<not> failbit s)"

text \<open>The conversion of a stream to a truth value, as in \<open>while (is)\<close>: \<open>!fail()\<close>.\<close>

definition ok :: "istream \<Rightarrow> bool" where
  "ok s = (\<not> failbit s)"

definition peek :: "istream \<Rightarrow> char option \<times> istream" where
  "peek s =
     (if \<not> good s then (None, s\<lparr>failbit := True\<rparr>)
      else case buf s of
             [] \<Rightarrow> (None, s\<lparr>eofbit := True\<rparr>)
           | c # cs \<Rightarrow> (Some c, s))"

definition get :: "istream \<Rightarrow> char option \<times> istream" where
  "get s =
     (if \<not> good s then (None, s\<lparr>failbit := True\<rparr>)
      else case buf s of
             [] \<Rightarrow> (None, s\<lparr>eofbit := True, failbit := True\<rparr>)
           | c # cs \<Rightarrow> (Some c, s\<lparr>buf := cs\<rparr>))"

text \<open>\<open>isspace\<close> and \<open>isupper\<close> of the C locale, on the \<open>int\<close> that \<open>peek\<close> returns.\<close>

definition isspace :: "char option \<Rightarrow> bool" where
  "isspace c = (case c of None \<Rightarrow> False
                | Some ch \<Rightarrow> ch = CHR '' '' \<or> (9 \<le> (of_char ch :: nat) \<and> (of_char ch :: nat) \<le> 13))"

definition isupper :: "char option \<Rightarrow> bool" where
  "isupper c = (case c of None \<Rightarrow> False
                | Some ch \<Rightarrow> 65 \<le> (of_char ch :: nat) \<and> (of_char ch :: nat) \<le> 90)"

text \<open>
  The conversion of the \<open>int\<close> to a \<open>char\<close>, as in \<open>char cmd = is.get()\<close> and
  \<open>expr += is.get()\<close>: \<open>EOF\<close> is -1 and becomes the character with all bits set.
\<close>

definition to_char :: "char option \<Rightarrow> char" where
  "to_char c = (case c of None \<Rightarrow> CHR 0xFF | Some ch \<Rightarrow> ch)"

text \<open>\<open>while (isspace(is.peek())) is.get();\<close>\<close>

function skip_space :: "istream \<Rightarrow> istream" where
  "skip_space s =
     (case peek s of (c, s1) \<Rightarrow>
        if isspace c then skip_space (snd (get s1)) else s1)"
  by pat_completeness auto
termination
  by (relation "measure (\<lambda>s. length (buf s))")
     (auto simp: peek_def get_def isspace_def split: if_splits list.splits)

declare skip_space.simps [simp del]

text \<open>
  The loop of \<open>getArgument\<close> that collects the expression:
  \<open>while (is && !isupper(is.peek()) && is.peek() != ',') expr += is.get();\<close>
\<close>

function read_expr :: "istream \<Rightarrow> string \<Rightarrow> string \<times> istream" where
  "read_expr s expr =
     (if \<not> ok s then (expr, s)
      else case peek s of (c1, s1) \<Rightarrow>
        if \<not> (\<not> isupper c1) then (expr, s1)
        else case peek s1 of (c2, s2) \<Rightarrow>
          if \<not> (c2 \<noteq> Some CHR '','') then (expr, s2)
          else case get s2 of (c3, s3) \<Rightarrow> read_expr s3 (expr @ [to_char c3]))"
  by pat_completeness auto
termination
  by (relation "measure (\<lambda>(s, expr). length (buf s) + (if failbit s then 0 else 1))")
     (auto simp: peek_def get_def ok_def good_def split: if_splits list.splits)

declare read_expr.simps [simp del]

section \<open>The parser\<close>

text \<open>
  The two exceptions that leave \<open>parse\<close>. A \<open>ParserException\<close> carries a message; the
  six messages of this file are the six constructors of \<open>parser_error\<close>:
  \<open>CommaExpected\<close> is "',' expected", \<open>ParameterExpected\<close> is "parameter expected",
  \<open>HOrVExpected\<close> is "'H' or 'V' expected", \<open>XOrYExpected\<close> is "transformation command
  'K' must be followed by 'X' or 'Y'", \<open>IllegalSkewingAngle a\<close> is "illegal skewing angle:
  a degrees", and \<open>CommandExpected cmd\<close> is "transformation command expected (found 'cmd'
  instead)". An exception thrown by the calculator passes through with its own content.
\<close>

datatype parser_error =
    CommaExpected
  | ParameterExpected
  | HOrVExpected
  | XOrYExpected
  | IllegalSkewingAngle real
  | CommandExpected char

datatype exn = ParserException parser_error | CalculatorException string

text \<open>
  Modelled from the spec: the expression evaluator \<open>Calculator\<close> (Calculator.h and
  Calculator.cpp are not among the sources). It evaluates an expression string to a number
  and looks up a named variable; either may fail, and either may change the calculator,
  which is passed by non-const reference. The calculator's state has the type \<open>'c\<close>.
\<close>

record 'c Calculator =
  eval :: "string \<Rightarrow> 'c \<Rightarrow> (string + real) \<times> 'c"
  getVariable :: "string \<Rightarrow> 'c \<Rightarrow> (string + real) \<times> 'c"

text \<open>
  A computation of the parser returns a value or throws, and leaves the stream and the
  calculator behind in either case.
\<close>

type_synonym ('c, 'a) res = "(exn + 'a) \<times> istream \<times> 'c"

definition bind_res :: "('c, 'a) res \<Rightarrow> ('a \<Rightarrow> istream \<Rightarrow> 'c \<Rightarrow> ('c, 'b) res) \<Rightarrow> ('c, 'b) res" where
  "bind_res r f =
     (case r of (Inl e, s, cs) \<Rightarrow> (Inl e, s, cs) | (Inr x, s, cs) \<Rightarrow> f x s cs)"

definition calc_eval :: "'c Calculator \<Rightarrow> string \<Rightarrow> istream \<Rightarrow> 'c \<Rightarrow> ('c, real) res" where
  "calc_eval calc expr s cs =
     (case eval calc expr cs of
        (Inl e, cs') \<Rightarrow> (Inl (CalculatorException e), s, cs')
      | (Inr x, cs') \<Rightarrow> (Inr x, s, cs'))"

definition calc_getVariable :: "'c Calculator \<Rightarrow> string \<Rightarrow> istream \<Rightarrow> 'c \<Rightarrow> ('c, real) res" where
  "calc_getVariable calc name s cs =
     (case getVariable calc name cs of
        (Inl e, cs') \<Rightarrow> (Inl (CalculatorException e), s, cs')
      | (Inr x, cs') \<Rightarrow> (Inr x, s, cs'))"

text \<open>\<open>getArgument\<close>. The second \<open>peek\<close> of the first test is only made when
  \<open>!optional && leadingComma\<close> holds, as \<open>&&\<close> evaluates.\<close>

definition getArgument ::
  "'c Calculator \<Rightarrow> real \<Rightarrow> bool \<Rightarrow> bool \<Rightarrow> istream \<Rightarrow> 'c \<Rightarrow> ('c, real) res" where
  "getArgument calc def optional leadingComma s cs =
     (let s1 = skip_space s;
          (comma_missing, s2) =
             (if \<not> optional \<and> leadingComma
              then (case peek s1 of (c, s') \<Rightarrow> (c \<noteq> Some CHR '','', s'))
              else (False, s1))
      in if comma_missing then (Inl (ParserException CommaExpected), s2, cs)
         else case peek s2 of (c, s3) \<Rightarrow>
           let (optional', s4) =
                 (if c = Some CHR '','' then (False, snd (get s3)) else (optional, s3));
               (expr, s5) = read_expr s4 []
           in if length expr = 0
              then (if optional' then (Inr def, s5, cs)
                    else (Inl (ParserException ParameterExpected), s5, cs))
              else calc_eval calc expr s5 cs)"


text \<open>\<open>numeric_limits<double>::epsilon()\<close>\<close>

definition epsilon :: real where
  "epsilon = 1 / 2 ^ 52"

text \<open>
  The loop of case \<open>'M'\<close>: \<open>for (int i=0; i < 6; i++) v[i] = getArgument(is, calc, i%4 ? 0 : 1,
  i!=0, i!=0);\<close> over the remaining values of \<open>i\<close>.
\<close>

fun read_M_args ::
  "'c Calculator \<Rightarrow> nat list \<Rightarrow> real list \<Rightarrow> istream \<Rightarrow> 'c \<Rightarrow> ('c, real list) res" where
  "read_M_args calc [] v s cs = (Inr v, s, cs)"
| "read_M_args calc (i # rest) v s cs =
     bind_res (getArgument calc (if i mod 4 \<noteq> 0 then 0 else 1) (i \<noteq> 0) (i \<noteq> 0) s cs)
       (\<lambda>x. read_M_args calc rest (v[i := x]))"

text \<open>
  One round of the loop of \<open>Matrix::parse (istream&, Calculator&)\<close>: the blanks, the
  command character and the \<open>switch\<close>. The result is the new value of the receiver, whose
  old value is \<open>m\<close>. The operands of \<open>calc.getVariable("ux")+calc.getVariable("w")/2\<close> are
  taken from left to right (C++ leaves their order open); both are evaluated before
  \<open>getArgument\<close> is entered.
\<close>

definition parse_cmd :: "'c Calculator \<Rightarrow> Matrix \<Rightarrow> istream \<Rightarrow> 'c \<Rightarrow> ('c, Matrix) res" where
  "parse_cmd calc m s cs =
     (case get (skip_space s) of (g, s1) \<Rightarrow>
      let cmd = to_char g in
      if cmd = CHR ''T'' then
        bind_res (getArgument calc 0 False False s1 cs) (\<lambda>tx s2 cs2.
        bind_res (getArgument calc 0 True True s2 cs2) (\<lambda>ty s3 cs3.
          (Inr (translate tx ty m), s3, cs3)))
      else if cmd = CHR ''S'' then
        bind_res (getArgument calc 1 False False s1 cs) (\<lambda>sx s2 cs2.
        bind_res (getArgument calc sx True True s2 cs2) (\<lambda>sy s3 cs3.
          (Inr (scale sx sy m), s3, cs3)))
      else if cmd = CHR ''R'' then
        bind_res (getArgument calc 0 False False s1 cs) (\<lambda>a s2 cs2.
        bind_res (calc_getVariable calc ''ux'' s2 cs2) (\<lambda>ux s3 cs3.
        bind_res (calc_getVariable calc ''w'' s3 cs3) (\<lambda>w s4 cs4.
        bind_res (getArgument calc (ux + w / 2) True True s4 cs4) (\<lambda>x s5 cs5.
        bind_res (calc_getVariable calc ''uy'' s5 cs5) (\<lambda>uy s6 cs6.
        bind_res (calc_getVariable calc ''h'' s6 cs6) (\<lambda>h s7 cs7.
        bind_res (getArgument calc (uy + h / 2) True True s7 cs7) (\<lambda>y s8 cs8.
          (Inr (translate x y (rotate_deg a (translate (- x) (- y) m))), s8, cs8))))))))
      else if cmd = CHR ''F'' then
        (case get s1 of (g', s2) \<Rightarrow>
         let c = to_char g' in
         if c \<noteq> CHR ''H'' \<and> c \<noteq> CHR ''V'' then (Inl (ParserException HOrVExpected), s2, cs)
         else
           bind_res (getArgument calc 0 False False s2 cs) (\<lambda>a s3 cs3.
             (Inr (flip (c = CHR ''H'') a m), s3, cs3)))
      else if cmd = CHR ''K'' then
        (case get s1 of (g', s2) \<Rightarrow>
         let c = to_char g' in
         if c \<noteq> CHR ''X'' \<and> c \<noteq> CHR ''Y'' then (Inl (ParserException XOrYExpected), s2, cs)
         else
           bind_res (getArgument calc 0 False False s2 cs) (\<lambda>a s3 cs3.
             if \<bar>cos (deg2rad a)\<bar> \<le> epsilon
             then (Inl (ParserException (IllegalSkewingAngle a)), s3, cs3)
             else if c = CHR ''X'' then (Inr (xskew a m), s3, cs3)
             else (Inr (yskew a m), s3, cs3)))
      else if cmd = CHR ''M'' then
        bind_res (read_M_args calc [0..<6] (replicate 9 0) s1 cs) (\<lambda>v s2 cs2.
          let v' = v[6 := 0, 7 := 0, 8 := 1]
          in (Inr (rmultiply (Matrix_array v' default_size) m), s2, cs2))
      else (Inl (ParserException (CommandExpected cmd)), s1, cs))"


subsection \<open>The loop and the two entry points\<close>

text \<open>
  \<open>while (is) { ... }\<close> of \<open>Matrix::parse (istream&, Calculator&)\<close>. The result is the
  exception that left the loop, if any, the value of the receiver, the stream and the
  calculator. Every \<open>throw\<close> of a round comes before the round changes the receiver.
  That the loop ends is proved below, from the lemmas on the length of the buffer.
\<close>

function parse_loop ::
  "'c Calculator \<Rightarrow> Matrix \<Rightarrow> istream \<Rightarrow> 'c \<Rightarrow> exn option \<times> Matrix \<times> istream \<times> 'c" where
  "parse_loop calc m s cs =
     (if \<not> ok s then (None, m, s, cs)
      else case parse_cmd calc m s cs of
             (Inl e, s', cs') \<Rightarrow> (Some e, m, s', cs')
           | (Inr m', s', cs') \<Rightarrow> parse_loop calc m' s' cs')"
  by pat_completeness auto

text \<open>
  \<open>Matrix::parse (istream &is, Calculator &calc)\<close>: \<open>*this = Matrix(1)\<close>, then the loop.
  \<open>this0\<close> is the value of the receiver before the call.
\<close>

definition parse_stream ::
  "'c Calculator \<Rightarrow> istream \<Rightarrow> 'c \<Rightarrow> Matrix \<Rightarrow> exn option \<times> Matrix \<times> istream \<times> 'c" where
  "parse_stream calc s cs this0 = parse_loop calc (Matrix_diag 1) s cs"

text \<open>
  \<open>Matrix::parse (const string &cmds, Calculator &calc)\<close>; the string stream is local. The
  constructor \<open>Matrix (const string &cmds, Calculator &calc)\<close> is this call on a new object.
\<close>

definition parse_string ::
  "'c Calculator \<Rightarrow> string \<Rightarrow> 'c \<Rightarrow> Matrix \<Rightarrow> exn option \<times> Matrix \<times> 'c" where
  "parse_string calc cmds cs this0 =
     (case parse_stream calc (istringstream cmds) cs this0 of
        (e, m, s, cs') \<Rightarrow> (e, m, cs'))"


section \<open>Predicates for the statements and the proofs\<close>

text \<open>
  What a lookup of a variable does in every state of the calculator: it fails, it
  succeeds, or it returns the value \<open>v\<close> and leaves the calculator as it was.
\<close>

abbreviation lookup_fails :: "'c Calculator \<Rightarrow> string \<Rightarrow> bool" where
  "lookup_fails calc name \<equiv> \<forall>c. \<exists>e c'. getVariable calc name c = (Inl e, c')"

abbreviation lookup_succeeds :: "'c Calculator \<Rightarrow> string \<Rightarrow> bool" where
  "lookup_succeeds calc name \<equiv> \<forall>c. \<exists>v c'. getVariable calc name c = (Inr v, c')"

abbreviation lookup_returns :: "'c Calculator \<Rightarrow> string \<Rightarrow> real \<Rightarrow> bool" where
  "lookup_returns calc name v \<equiv> \<forall>c. getVariable calc name c = (Inr v, c)"

text \<open>
  \<open>no_longer n r\<close>: the computation \<open>r\<close> leaves at most \<open>n\<close> characters in the stream.
  \<open>throws r\<close>: the computation \<open>r\<close> ends in an exception.
\<close>

definition no_longer :: "nat \<Rightarrow> ('c, 'a) res \<Rightarrow> bool" where
  "no_longer n r = (length (buf (fst (snd r))) \<le> n)"

definition throws :: "('c, 'a) res \<Rightarrow> bool" where
  "throws r = (\<exists>e s cs. r = (Inl e, s, cs))"

section \<open>No step of the parser puts characters back\<close>

lemma peek_buf: "buf (snd (peek s)) = buf s"
  by (simp add: peek_def split: list.splits)

lemma get_buf_le: "length (buf (snd (get s))) \<le> length (buf s)"
  by (simp add: get_def split: list.splits)

lemma get_Some_buf: "get s = (Some c, s') \<Longrightarrow> buf s = c # buf s'"
  by (auto simp: get_def split: if_splits list.splits)

lemma skip_space_buf_le: "length (buf (skip_space s)) \<le> length (buf s)"
proof (induction s rule: skip_space.induct)
  case (1 s)
  show ?case
  proof (cases "peek s")
    case (Pair c s1)
    have b: "buf s1 = buf s" using peek_buf [of s] Pair by simp
    show ?thesis
    proof (cases "isspace c")
      case True
      have "length (buf (skip_space (snd (get s1)))) \<le> length (buf (snd (get s1)))"
        using "1.IH" Pair True by simp
      also have "\<dots> \<le> length (buf s)" using get_buf_le [of s1] b by simp
      finally show ?thesis using Pair True by (simp add: skip_space.simps [of s])
    next
      case False
      then show ?thesis using Pair b by (simp add: skip_space.simps [of s])
    qed
  qed
qed

lemma read_expr_buf_le: "length (buf (snd (read_expr s e))) \<le> length (buf s)"
proof (induction s e rule: read_expr.induct)
  case (1 s expr)
  show ?case
  proof (cases "ok s")
    case False
    then show ?thesis by (simp add: read_expr.simps [of s])
  next
    case True
    obtain c1 s1 where p1: "peek s = (c1, s1)" by (cases "peek s")
    obtain c2 s2 where p2: "peek s1 = (c2, s2)" by (cases "peek s1")
    obtain c3 s3 where p3: "get s2 = (c3, s3)" by (cases "get s2")
    have b1: "buf s1 = buf s" using peek_buf [of s] p1 by simp
    have b2: "buf s2 = buf s" using peek_buf [of s1] p2 b1 by simp
    have b3: "length (buf s3) \<le> length (buf s)" using get_buf_le [of s2] p3 b2 by simp
    show ?thesis
    proof (cases "\<not> isupper c1 \<and> c2 \<noteq> Some CHR '',''")
      case False
      then show ?thesis using True p1 p2 b1 b2 by (auto simp: read_expr.simps [of s])
    next
      case go: True
      have "length (buf (snd (read_expr s3 (expr @ [to_char c3])))) \<le> length (buf s3)"
        using "1.IH" True p1 p2 p3 go by simp
      then show ?thesis using True p1 p2 p3 go b3 by (simp add: read_expr.simps [of s])
    qed
  qed
qed

lemma no_longer_tuple [simp]: "no_longer n (r, s, cs) = (length (buf s) \<le> n)"
  by (simp add: no_longer_def)

lemma bind_res_no_longer:
  "no_longer n r \<Longrightarrow> (\<And>x s cs. length (buf s) \<le> n \<Longrightarrow> no_longer n (f x s cs)) \<Longrightarrow>
   no_longer n (bind_res r f)"
  by (cases r) (auto simp: bind_res_def no_longer_def split: sum.splits)

lemma calc_eval_no_longer: "length (buf s) \<le> n \<Longrightarrow> no_longer n (calc_eval calc e s cs)"
  by (simp add: calc_eval_def no_longer_def split: prod.splits sum.splits)

lemma calc_getVariable_no_longer:
  "length (buf s) \<le> n \<Longrightarrow> no_longer n (calc_getVariable calc e s cs)"
  by (simp add: calc_getVariable_def no_longer_def split: prod.splits sum.splits)

lemma getArgument_no_longer:
  assumes "length (buf s) \<le> n"
  shows "no_longer n (getArgument calc d opt lc s cs)"
proof -
  let ?s1 = "skip_space s"
  have a1: "length (buf ?s1) \<le> n" using skip_space_buf_le [of s] assms by simp
  obtain cm s2 where e2: "(if \<not> opt \<and> lc
              then (case peek ?s1 of (c, s') \<Rightarrow> (c \<noteq> Some CHR '','', s'))
              else (False, ?s1)) = (cm, s2)" by fastforce
  have a2: "buf s2 = buf ?s1" using e2 peek_buf [of ?s1] by (auto split: if_splits prod.splits)
  obtain c s3 where e3: "peek s2 = (c, s3)" by (cases "peek s2")
  have a3: "buf s3 = buf s2" using peek_buf [of s2] e3 by simp
  obtain o' s4 where e4: "(if c = Some CHR '','' then (False, snd (get s3)) else (opt, s3)) = (o', s4)"
    by fastforce
  have a4: "length (buf s4) \<le> length (buf s3)" using e4 get_buf_le [of s3] by (auto split: if_splits)
  obtain expr s5 where e5: "read_expr s4 [] = (expr, s5)" by (cases "read_expr s4 []")
  have a5: "length (buf s5) \<le> length (buf s4)" using read_expr_buf_le [of s4 "[]"] e5 by simp
  have l5: "length (buf s5) \<le> n" using a1 a2 a3 a4 a5 by simp
  have l2: "length (buf s2) \<le> n" using a1 a2 by simp
  show ?thesis
    unfolding getArgument_def Let_def e2 e3 e4 e5 prod.case
    using l5 l2 calc_eval_no_longer [OF l5, of calc expr cs] by (simp add: no_longer_def)
qed

lemma read_M_args_no_longer:
  "length (buf s) \<le> n \<Longrightarrow> no_longer n (read_M_args calc is v s cs)"
proof (induction "is" arbitrary: v s cs)
  case Nil
  then show ?case by (simp add: no_longer_def)
next
  case (Cons i rest)
  show ?case
    unfolding read_M_args.simps
    by (rule bind_res_no_longer [OF getArgument_no_longer [OF Cons.prems]]) (rule Cons.IH)
qed

lemmas no_longer_intros = bind_res_no_longer getArgument_no_longer calc_getVariable_no_longer read_M_args_no_longer

lemma parse_cmd_no_longer:
  assumes "buf (skip_space s) = c # b" "good (skip_space s)"
  shows "no_longer (length b) (parse_cmd calc m s cs)"
proof -
  have g: "get (skip_space s) = (Some c, (skip_space s)\<lparr>buf := b\<rparr>)"
    using assms by (simp add: get_def)
  have le: "length (buf ((skip_space s)\<lparr>buf := b\<rparr>)) \<le> length b" by simp
  have g2: "length (buf (snd (get ((skip_space s)\<lparr>buf := b\<rparr>)))) \<le> length b"
    using get_buf_le [of "(skip_space s)\<lparr>buf := b\<rparr>"] by simp
  show ?thesis
    unfolding parse_cmd_def g prod.case Let_def
    using g2 by (auto split: prod.splits intro!: no_longer_intros)
qed

lemma parse_cmd_shorter:
  assumes "parse_cmd calc m s cs = (Inr m', s', cs')"
  shows "length (buf s') < length (buf s)"
proof (cases "get (skip_space s)")
  case (Pair g s1)
  show ?thesis
  proof (cases g)
    case None
    then show ?thesis using assms Pair by (simp add: parse_cmd_def to_char_def)
  next
    case (Some c)
    have gd: "good (skip_space s)" and bf: "buf (skip_space s) = c # buf s1"
      using Pair Some by (auto simp: get_def split: if_splits list.splits)
    have "no_longer (length (buf s1)) (parse_cmd calc m s cs)"
      using parse_cmd_no_longer [OF bf gd] .
    then have "length (buf s') \<le> length (buf s1)" using assms by simp
    also have "\<dots> < length (buf (skip_space s))" using bf by simp
    also have "\<dots> \<le> length (buf s)" by (rule skip_space_buf_le)
    finally show ?thesis .
  qed
qed

text \<open>A round that does not throw has extracted its command character: the loop ends.\<close>

termination parse_loop
  by (relation "measure (\<lambda>(calc, m, s, cs). length (buf s))")
     (auto dest: parse_cmd_shorter [OF sym])

declare parse_loop.simps [simp del]

section \<open>Cells of the matrices the constructors build\<close>

lemma upt_0_3: "[0..<3] = [0, 1, 2]" by (simp add: upt_rec)
lemma upt_0_2: "[0..<2] = [0, 1]" by (simp add: upt_rec)

lemma is_3x3_nth: "is_3x3 m \<longleftrightarrow> length m = 3 \<and> (\<forall>i<3. length (m ! i) = 3)"
  by (auto simp: is_3x3_def list_all_length)

lemma is_3x3_explicit:
  "is_3x3 m \<longleftrightarrow> (\<exists>a b c d e f g h i. m = [[a, b, c], [d, e, f], [g, h, i]])"
proof
  assume "is_3x3 m"
  then have l: "length m = 3" and r: "\<forall>r\<in>set m. length r = 3"
    by (auto simp: is_3x3_def list_all_iff)
  from l obtain r0 r1 r2 where m: "m = [r0, r1, r2]"
    by (auto simp: length_Suc_conv eval_nat_numeral)
  have "length r0 = 3" "length r1 = 3" "length r2 = 3" using r m by auto
  then obtain a b c d e f g h i where "r0 = [a, b, c]" "r1 = [d, e, f]" "r2 = [g, h, i]"
    by (auto simp: length_Suc_conv eval_nat_numeral)
  then show "\<exists>a b c d e f g h i. m = [[a, b, c], [d, e, f], [g, h, i]]" using m by blast
next
  assume "\<exists>a b c d e f g h i. m = [[a, b, c], [d, e, f], [g, h, i]]"
  then show "is_3x3 m" by (auto simp: is_3x3_def)
qed

lemma Matrix_diag_explicit: "Matrix_diag d = [[d, 0, 0], [0, d, 0], [0, 0, d]]"
  by (simp add: Matrix_diag_def upt_0_3)

lemma val_upd_3x3: "is_3x3 m \<Longrightarrow> is_3x3 (val_upd m i j x)"
  by (cases "i < 3") (auto simp: is_3x3_nth val_upd_def nth_list_update)

lemma val_val_upd:
  "is_3x3 m \<Longrightarrow> i < 3 \<Longrightarrow> j < 3 \<Longrightarrow>
   val (val_upd m i j x) i' j' = (if i' = i \<and> j' = j then x else val m i' j')"
  by (auto simp: is_3x3_nth val_upd_def val_def nth_list_update)

lemma flat_index_eq: "(k div 3 = i div 3 \<and> k mod 3 = i mod 3) \<longleftrightarrow> k = (i::nat)"
  by (metis div_mult_mod_eq)

lemma fold_val_upd:
  assumes "is_3x3 m" "b \<le> 9"
  shows "is_3x3 (fold (\<lambda>i m'. val_upd m' (i div 3) (i mod 3) (f i)) [a..<b] m) \<and>
         (\<forall>k. val (fold (\<lambda>i m'. val_upd m' (i div 3) (i mod 3) (f i)) [a..<b] m) (k div 3) (k mod 3) =
              (if a \<le> k \<and> k < b then f k else val m (k div 3) (k mod 3)))"
  using assms(2)
proof (induction b)
  case 0
  then show ?case using assms(1) by simp
next
  case (Suc b)
  let ?g = "\<lambda>i m'. val_upd m' (i div 3) (i mod 3) (f i)"
  show ?case
  proof (cases "a \<le> b")
    case False
    then show ?thesis using assms(1) by simp
  next
    case True
    have ih: "is_3x3 (fold ?g [a..<b] m)"
      "\<And>k. val (fold ?g [a..<b] m) (k div 3) (k mod 3) =
              (if a \<le> k \<and> k < b then f k else val m (k div 3) (k mod 3))"
      using Suc by simp_all
    have b3: "b div 3 < 3" "b mod 3 < 3" using Suc.prems by auto
    have st: "fold ?g [a..<Suc b] m = val_upd (fold ?g [a..<b] m) (b div 3) (b mod 3) (f b)"
      using True by simp
    show ?thesis
      unfolding st
      using val_upd_3x3 [OF ih(1)] val_val_upd [OF ih(1) b3] ih(2) True
      by (auto simp: flat_index_eq)
  qed
qed

lemma set_array_cells:
  assumes "is_3x3 m"
  shows "is_3x3 (set_array v n m) \<and>
         (\<forall>k<9. val (set_array v n m) (k div 3) (k mod 3) =
              (if k < min n 9 then v ! k else if k mod 4 = 0 then 1 else 0))"
proof -
  let ?m1 = "fold (\<lambda>i m'. val_upd m' (i div 3) (i mod 3) (v ! i)) [0..<min n 9] m"
  have 1: "is_3x3 ?m1" "\<And>k. val ?m1 (k div 3) (k mod 3) = (if 0 \<le> k \<and> k < min n 9 then v ! k else val m (k div 3) (k mod 3))"
    using fold_val_upd [OF assms, of "min n 9" "\<lambda>i. v ! i" 0] by simp_all
  have 2: "is_3x3 (set_array v n m)"
     "\<And>k. val (set_array v n m) (k div 3) (k mod 3) =
        (if min n 9 \<le> k \<and> k < 9 then (if k mod 4 \<noteq> 0 then 0 else 1) else val ?m1 (k div 3) (k mod 3))"
    using fold_val_upd [OF 1(1), of 9 "\<lambda>i. if i mod 4 \<noteq> 0 then 0 else 1" "min n 9"]
    by (simp_all add: set_array_def Let_def)
  show ?thesis using 2 1(2) by auto
qed


lemma Matrix_array_9:
  "Matrix_array [v0, v1, v2, v3, v4, v5, v6, v7, v8] 9 = [[v0, v1, v2], [v3, v4, v5], [v6, v7, v8]]"
  by (simp add: Matrix_array_def set_array_def Matrix_default_def Matrix_diag_explicit upt_rec val_upd_def)

lemma TranslationMatrix_explicit: "TranslationMatrix tx ty = [[1, 0, tx], [0, 1, ty], [0, 0, 1]]"
  by (simp add: TranslationMatrix_def set_array_def Matrix_default_def Matrix_diag_explicit upt_rec val_upd_def)

lemma ScalingMatrix_explicit: "ScalingMatrix sx sy = [[sx, 0, 0], [0, sy, 0], [0, 0, 1]]"
  by (simp add: ScalingMatrix_def set_array_def Matrix_default_def Matrix_diag_explicit upt_rec val_upd_def)

lemma RotationMatrix_explicit:
  "RotationMatrix deg =
   [[cos (deg2rad deg), - sin (deg2rad deg), 0], [sin (deg2rad deg), cos (deg2rad deg), 0], [0, 0, 1]]"
  by (simp add: RotationMatrix_def set_array_def Matrix_default_def Matrix_diag_explicit upt_rec val_upd_def Let_def)

lemma rmultiply_explicit:
  "rmultiply [[a, b, c], [d, e, f], [g, h, i]] [[a', b', c'], [d', e', f'], [g', h', i']] =
   [[a * a' + b * d' + c * g', a * b' + b * e' + c * h', a * c' + b * f' + c * i'],
    [d * a' + e * d' + f * g', d * b' + e * e' + f * h', d * c' + e * f' + f * i'],
    [g * a' + h * d' + i * g', g * b' + h * e' + i * h', g * c' + h * f' + i * i']]"
  by (simp add: rmultiply_def Matrix_default_def Matrix_diag_explicit upt_0_3 val_def val_upd_def)

lemma lmultiply_explicit:
  "lmultiply [[a', b', c'], [d', e', f'], [g', h', i']] [[a, b, c], [d, e, f], [g, h, i]] =
   [[a * a' + b * d' + c * g', a * b' + b * e' + c * h', a * c' + b * f' + c * i'],
    [d * a' + e * d' + f * g', d * b' + e * e' + f * h', d * c' + e * f' + f * i'],
    [g * a' + h * d' + i * g', g * b' + h * e' + i * h', g * c' + h * f' + i * i']]"
  by (simp add: lmultiply_def Matrix_default_def Matrix_diag_explicit upt_0_3 val_def val_upd_def)

lemma apply_point_explicit:
  "apply_point [[a, b, c], [d, e, f], r] (x, y) = (a * x + b * y + c, d * x + e * y + f)"
  by (simp add: apply_point_def upt_0_3 upt_0_2 val_def)

lemma matrix_eq_explicit:
  "matrix_eq [[a, b, c], [d, e, f], r] [[a', b', c'], [d', e', f'], r'] \<longleftrightarrow>
   a = a' \<and> b = b' \<and> c = c' \<and> d = d' \<and> e = e' \<and> f = f'"
  by (simp add: matrix_eq_def upt_0_3 upt_0_2 val_def)

lemma rmultiply_apply_point:
  assumes "is_3x3 tm" "is_3x3 m" "val m 2 0 = 0" "val m 2 1 = 0" "val m 2 2 = 1"
  shows "apply_point (rmultiply tm m) p = apply_point tm (apply_point m p)"
proof -
  obtain a b c d e f g h i where tm: "tm = [[a, b, c], [d, e, f], [g, h, i]]"
    using assms(1) unfolding is_3x3_explicit by blast
  obtain a' b' c' d' e' f' g' h' i' where m: "m = [[a', b', c'], [d', e', f'], [g', h', i']]"
    using assms(2) unfolding is_3x3_explicit by blast
  obtain x y where p: "p = (x, y)" by (cases p)
  have r: "g' = 0" "h' = 0" "i' = 1" using assms(3-5) m by (simp_all add: val_def)
  show ?thesis
    unfolding tm m p rmultiply_explicit apply_point_explicit r
    by (simp add: algebra_simps)
qed

lemma lmultiply_apply_point:
  assumes "is_3x3 tm" "is_3x3 m" "val tm 2 0 = 0" "val tm 2 1 = 0" "val tm 2 2 = 1"
  shows "apply_point (lmultiply tm m) p = apply_point m (apply_point tm p)"
proof -
  obtain a b c d e f g h i where tm: "tm = [[a, b, c], [d, e, f], [g, h, i]]"
    using assms(1) unfolding is_3x3_explicit by blast
  obtain a' b' c' d' e' f' g' h' i' where m: "m = [[a', b', c'], [d', e', f'], [g', h', i']]"
    using assms(2) unfolding is_3x3_explicit by blast
  obtain x y where p: "p = (x, y)" by (cases p)
  have r: "g = 0" "h = 0" "i = 1" using assms(3-5) tm by (simp_all add: val_def)
  show ?thesis
    unfolding tm m p lmultiply_explicit apply_point_explicit r
    by (simp add: algebra_simps)
qed

section \<open>Claims about the matrix algebra\<close>

text \<open>
  C1. The claim: calling \<open>rmultiply(T)\<close> on \<open>M\<close> and applying the result to a point \<open>p\<close>
  gives the point obtained by applying \<open>T\<close> to \<open>p\<close> first and the original \<open>M\<close> second.
  The loops of \<open>rmultiply\<close> compute the product with \<open>tm\<close> as the left factor, so the
  receiver acts first and \<open>tm\<close> second. For \<open>M\<close> the scaling by 2, \<open>T\<close> the translation by
  (1, 0) and \<open>p\<close> the origin, the result of \<open>rmultiply\<close> maps \<open>p\<close> to (1, 0), which is \<open>T\<close>
  applied to \<open>M p\<close>, whereas \<open>M\<close> applied to \<open>T p\<close> is (2, 0). The order for all
  matrices with a third row (0, 0, 1) is in the lemmas \<open>rmultiply_apply_point\<close> and
  \<open>lmultiply_apply_point\<close>: \<open>lmultiply\<close> has the order the claim states.
\<close>

theorem rmultiply_acts_after_receiver:
  "apply_point (rmultiply (TranslationMatrix 1 0) (ScalingMatrix 2 2)) (0, 0) = (1, 0) \<and>
   apply_point (TranslationMatrix 1 0) (apply_point (ScalingMatrix 2 2) (0, 0)) = (1, 0) \<and>
   apply_point (ScalingMatrix 2 2) (apply_point (TranslationMatrix 1 0) (0, 0)) = (2, 0)"
  by (simp add: TranslationMatrix_explicit ScalingMatrix_explicit rmultiply_explicit
        apply_point_explicit)

text \<open>
  C3. \<open>isTranslation\<close> returns true exactly when the upper-left 2x2 block is the identity
  and the third row is (0, 0, 1), and in every case it has written \<open>tx = values[0][2]\<close> and
  \<open>ty = values[1][2]\<close>.
\<close>

theorem isTranslation_result:
  "isTranslation m =
     (val m 0 2, val m 1 2,
      (val m 0 0 = 1 \<and> val m 0 1 = 0 \<and> val m 1 0 = 0 \<and> val m 1 1 = 1) \<and>
      (val m 2 0 = 0 \<and> val m 2 1 = 0 \<and> val m 2 2 = 1))"
  by (auto simp: isTranslation_def upt_0_3 upt_0_2 Let_def)

theorem isTranslation_result_witness:
  "isTranslation (TranslationMatrix 5 3) = (5, 3, True) \<and>
   isTranslation (ScalingMatrix 2 2) = (0, 0, False)"
  using isTranslation_result [of "TranslationMatrix 5 3"] isTranslation_result [of "ScalingMatrix 2 2"]
  by (simp add: TranslationMatrix_explicit ScalingMatrix_explicit val_def)

text \<open>
  C4. \<open>set\<close> on a matrix stores the first \<open>min(n, 9)\<close> values of \<open>v\<close> row by row into the
  flattened cells \<open>0 .. min(n, 9) - 1\<close>, and sets every later flattened cell \<open>i\<close> up to 8 to 1
  if \<open>i % 4 = 0\<close> and to 0 otherwise; the result is again a 3x3 matrix. The array version
  expects \<open>v\<close> to hold the values it reads; the vector version is the array version with
  the vector's own size for \<open>n\<close> (a size below \<open>2^32\<close>, which the conversion to
  \<open>unsigned\<close> keeps).
\<close>

theorem set_fills_identity_pattern:
  assumes "is_3x3 m" and "min n 9 \<le> length v"
  shows "is_3x3 (set_array v n m) \<and>
         (\<forall>i<9. val (set_array v n m) (i div 3) (i mod 3) =
                   (if i < min n 9 then v ! i else if i mod 4 = 0 then 1 else 0)) \<and>
         (length v < 2 ^ 32 \<longrightarrow> set_vector v m = set_array v (length v) m)"
  using set_array_cells [OF assms(1), of v n]
  by (simp add: set_vector_def set_array_def)

theorem set_fills_identity_pattern_witness:
  "is_3x3 (Matrix_diag 0) \<and> min 2 9 \<le> length [1, 7 :: real] \<and>
   is_3x3 (set_array [1, 7] 2 (Matrix_diag 0)) \<and>
   val (set_array [1, 7] 2 (Matrix_diag 0)) (1 div 3) (1 mod 3) = 7 \<and>
   val (set_array [1, 7] 2 (Matrix_diag 0)) (4 div 3) (4 mod 3) = 1 \<and>
   val (set_array [1, 7] 2 (Matrix_diag 0)) (5 div 3) (5 mod 3) = 0 \<and>
   set_vector [1, 7] (Matrix_diag 0) = set_array [1, 7] (length [1, 7 :: real]) (Matrix_diag 0)"
proof -
  have h1: "is_3x3 (Matrix_diag 0)" by (simp add: Matrix_diag_explicit is_3x3_def)
  have h2: "min 2 9 \<le> length [1, 7 :: real]" by simp
  note t = set_fills_identity_pattern [OF h1 h2]
  have c: "val (set_array [1, 7] 2 (Matrix_diag 0)) (i div 3) (i mod 3) =
             (if i < min 2 9 then [1, 7] ! i else if i mod 4 = 0 then 1 else 0)" if "i < 9" for i
    using t that by blast
  have v: "set_vector [1, 7] (Matrix_diag 0) = set_array [1, 7] (length [1, 7 :: real]) (Matrix_diag 0)"
    using t by simp
  show ?thesis
    using h1 h2 t c [of 1] c [of 4] c [of 5] v by simp
qed

text \<open>
  C6. For all real numbers \<open>a\<close> and \<open>b\<close>, \<open>translate(a, 0)\<close> followed by \<open>translate(b, 0)\<close>
  on an identity matrix gives a matrix equal, under \<open>operator ==\<close>, to \<open>translate(a + b, 0)\<close>
  on an identity matrix.
\<close>

theorem translate_composition:
  "matrix_eq (translate b 0 (translate a 0 (Matrix_diag 1))) (translate (a + b) 0 (Matrix_diag 1))"
  by (simp add: translate_def TranslationMatrix_explicit Matrix_diag_explicit rmultiply_explicit
        matrix_eq_explicit)

theorem translate_composition_witness:
  "matrix_eq (translate 3 0 (translate 2 0 (Matrix_diag 1))) (translate (2 + 3) 0 (Matrix_diag 1))"
  by (rule translate_composition)

text \<open>
  C8. \<open>getSVG\<close> renders the cells as \<open>matrix(a d b e c f)\<close>, that is in the order
  \<open>values[0][0]\<close>, \<open>values[1][0]\<close>, \<open>values[0][1]\<close>, \<open>values[1][1]\<close>, \<open>values[0][2]\<close>,
  \<open>values[1][2]\<close>, each number rounded to three decimal places by
  \<open>floor(x * 10^3 + 0.5) / 10^3\<close>, which rounds a half upwards (2.5 thousandths become 3);
  for the identity matrix the string is \<open>matrix(1 0 0 1 0 0)\<close>, given that the stream prints
  the numbers 1 and 0 as \<open>1\<close> and \<open>0\<close>.
\<close>

theorem getSVG_format:
  "getSVG fmt m =
     ''matrix('' @ fmt (round_n (val m 0 0) 3) @ '' '' @ fmt (round_n (val m 1 0) 3) @ '' '' @
       fmt (round_n (val m 0 1) 3) @ '' '' @ fmt (round_n (val m 1 1) 3) @ '' '' @
       fmt (round_n (val m 0 2) 3) @ '' '' @ fmt (round_n (val m 1 2) 3) @ '')'' \<and>
   round_n x 3 = real_of_int \<lfloor>x * 10 ^ 3 + 0.5\<rfloor> / 10 ^ 3 \<and>
   round_n (25 / 10000) 3 = 3 / 1000 \<and>
   (fmt 1 = ''1'' \<and> fmt 0 = ''0'' \<longrightarrow> getSVG fmt (Matrix_diag 1) = ''matrix(1 0 0 1 0 0)'')"
  by (simp add: getSVG_def upt_0_3 upt_0_2 round_n_def Matrix_diag_explicit val_def)

theorem getSVG_format_witness:
  "getSVG (\<lambda>x. if x = 1 then ''1'' else ''0'') (Matrix_diag 1) = ''matrix(1 0 0 1 0 0)''"
  using getSVG_format [of "\<lambda>x. if x = 1 then ''1'' else ''0''" "Matrix_diag 1" 0,
      THEN conjunct2, THEN conjunct2, THEN conjunct2]
  by simp

section \<open>Evaluating the parser\<close>

lemmas stream_simps =
  istringstream_def skip_space.simps read_expr.simps peek_def get_def good_def ok_def
  isspace_def isupper_def to_char_def

lemma bind_res_Inr [simp]: "bind_res (Inr x, s, cs) f = f x s cs"
  by (simp add: bind_res_def)

lemma bind_res_Inl [simp]: "bind_res (Inl e, s, cs) f = (Inl e, s, cs)"
  by (simp add: bind_res_def)


lemma skip_space_failed: "failbit s \<Longrightarrow> skip_space s = s"
  by (simp add: skip_space.simps [of s] peek_def good_def isspace_def)

lemma skip_space_nonspace:
  "\<not> isspace (Some c) \<Longrightarrow>
   skip_space \<lparr>buf = c # b, eofbit = False, failbit = False\<rparr> =
   \<lparr>buf = c # b, eofbit = False, failbit = False\<rparr>"
  by (subst skip_space.simps) (simp add: peek_def good_def)

lemma skip_space_blanks:
  assumes "\<forall>c\<in>set ws. isspace (Some c)"
  shows "skip_space \<lparr>buf = ws, eofbit = False, failbit = False\<rparr> =
         \<lparr>buf = [], eofbit = True, failbit = False\<rparr>"
  using assms
proof (induction ws)
  case Nil
  show ?case by (subst skip_space.simps) (simp add: peek_def good_def isspace_def)
next
  case (Cons c ws)
  have "skip_space \<lparr>buf = c # ws, eofbit = False, failbit = False\<rparr> =
        skip_space \<lparr>buf = ws, eofbit = False, failbit = False\<rparr>"
    using Cons.prems by (subst skip_space.simps) (simp add: peek_def get_def good_def)
  then show ?case using Cons by simp
qed


lemma parse_loop_failed: "failbit s \<Longrightarrow> parse_loop calc m s cs = (None, m, s, cs)"
  by (simp add: parse_loop.simps [of calc m s] ok_def)




lemma bind_calc_eval:
  "bind_res (calc_eval calc expr s cs) f =
     (case eval calc expr cs of
        (Inl e, cs') \<Rightarrow> (Inl (CalculatorException e), s, cs')
      | (Inr x, cs') \<Rightarrow> f x s cs')"
  by (simp add: calc_eval_def split: prod.splits sum.splits)

lemma bind_calc_getVariable:
  "bind_res (calc_getVariable calc name s cs) f =
     (case getVariable calc name cs of
        (Inl e, cs') \<Rightarrow> (Inl (CalculatorException e), s, cs')
      | (Inr x, cs') \<Rightarrow> f x s cs')"
  by (simp add: calc_getVariable_def split: prod.splits sum.splits)





lemma throws_bind: "(\<And>x s cs. throws (f x s cs)) \<Longrightarrow> throws (bind_res r f)"
  by (cases r) (auto simp: bind_res_def throws_def split: sum.splits)

lemma throws_lookup:
  assumes "lookup_fails calc name"
  shows "throws (bind_res (calc_getVariable calc name s cs) f)"
proof -
  obtain e c' where "getVariable calc name cs = (Inl e, c')" using assms by blast
  then show ?thesis by (simp add: bind_calc_getVariable throws_def)
qed

lemma skip_space_get_ok:
  assumes "get (skip_space s) = (Some c, s1)"
  shows "ok s"
proof (rule ccontr)
  assume "\<not> ok s"
  then have "failbit s" by (simp add: ok_def)
  then have "get (skip_space s) = (None, s)"
    by (simp add: skip_space_failed get_def good_def)
  with assms show False by simp
qed

lemma parse_cmd_R:
  assumes "get (skip_space s) = (Some CHR ''R'', s1)"
  shows "parse_cmd calc m s cs =
     bind_res (getArgument calc 0 False False s1 cs) (\<lambda>a s2 cs2.
     bind_res (calc_getVariable calc ''ux'' s2 cs2) (\<lambda>ux s3 cs3.
     bind_res (calc_getVariable calc ''w'' s3 cs3) (\<lambda>w s4 cs4.
     bind_res (getArgument calc (ux + w / 2) True True s4 cs4) (\<lambda>x s5 cs5.
     bind_res (calc_getVariable calc ''uy'' s5 cs5) (\<lambda>uy s6 cs6.
     bind_res (calc_getVariable calc ''h'' s6 cs6) (\<lambda>h s7 cs7.
     bind_res (getArgument calc (uy + h / 2) True True s7 cs7) (\<lambda>y s8 cs8.
       (Inr (translate x y (rotate_deg a (translate (- x) (- y) m))), s8, cs8))))))))"
  unfolding parse_cmd_def assms by (simp add: to_char_def)

section \<open>Claims about the parser\<close>

text \<open>
  C2. The claim: parsing ends successfully when the input is exhausted, and in particular
  the empty string, or a string of blanks only, parses to the identity matrix and raises
  no error. On such a string the loop is entered, because a new stream is in a good state;
  \<open>get\<close> then returns \<open>EOF\<close>, which as a \<open>char\<close> is no command letter, and the
  \<open>default\<close> branch throws the \<open>ParserException\<close> "transformation command expected".
\<close>

theorem parse_blank_input:
  assumes "\<forall>c\<in>set ws. isspace (Some c)"
  shows "parse_string calc ws cs this0 =
           (Some (ParserException (CommandExpected (CHR 0xFF))), Matrix_diag 1, cs)"
proof -
  let ?s = "\<lparr>buf = ws, eofbit = False, failbit = False\<rparr>"
  have "parse_cmd calc (Matrix_diag 1) ?s cs =
          (Inl (ParserException (CommandExpected (CHR 0xFF))),
           \<lparr>buf = [], eofbit = True, failbit = True\<rparr>, cs)"
    unfolding parse_cmd_def skip_space_blanks [OF assms]
    by (simp add: get_def good_def to_char_def)
  then have "parse_loop calc (Matrix_diag 1) ?s cs =
          (Some (ParserException (CommandExpected (CHR 0xFF))), Matrix_diag 1,
           \<lparr>buf = [], eofbit = True, failbit = True\<rparr>, cs)"
    by (subst parse_loop.simps) (simp add: ok_def)
  then show ?thesis
    by (simp add: parse_string_def parse_stream_def istringstream_def)
qed

theorem parse_blank_input_witness:
  "parse_string \<lparr>eval = (\<lambda>e c. (Inr 1, c)), getVariable = (\<lambda>n c. (Inr 0, c))\<rparr> '''' ()
     (Matrix_diag 0) = (Some (ParserException (CommandExpected (CHR 0xFF))), Matrix_diag 1, ()) \<and>
   parse_string \<lparr>eval = (\<lambda>e c. (Inr 1, c)), getVariable = (\<lambda>n c. (Inr 0, c))\<rparr> ''  '' ()
     (Matrix_diag 0) = (Some (ParserException (CommandExpected (CHR 0xFF))), Matrix_diag 1, ())"
proof -
  let ?calc = "\<lparr>eval = (\<lambda>e c. (Inr 1, c)), getVariable = (\<lambda>n c. (Inr (0::real), c))\<rparr> :: unit Calculator"
  have h1: "\<forall>c\<in>set ''''. isspace (Some c)" by simp
  have h2: "\<forall>c\<in>set ''  ''. isspace (Some c)" by (simp add: isspace_def)
  show ?thesis
    using parse_blank_input [OF h1, of ?calc "()" "Matrix_diag 0"]
      parse_blank_input [OF h2, of ?calc "()" "Matrix_diag 0"]
    by simp
qed

text \<open>
  C5. The claim: \<open>parse\<close> raises a \<open>ParserException\<close> exactly for an unrecognised command
  letter, \<open>F\<close> without \<open>H\<close> or \<open>V\<close>, \<open>K\<close> without \<open>X\<close> or \<open>Y\<close>, a missing required
  argument, a missing mandatory comma, and a skew angle with a cosine of magnitude at most
  epsilon. In \<open>T1,\<close> the comma makes the second argument required and the argument is
  missing. Before an upper-case letter, as in \<open>T1,S\<close>, the parser throws "parameter
  expected"; at the end of the input the collecting loop appends the \<open>EOF\<close> returned by
  \<open>get\<close> to the expression, the expression is not empty, and the one-character string is
  given to the calculator, so the outcome is the calculator's: its exception, or a
  successful parse.
\<close>

theorem missing_argument_at_end_of_input:
  "parse_string calc ''T1,'' cs this0 =
     (case eval calc ''1'' cs of
        (Inl e, cs1) \<Rightarrow> (Some (CalculatorException e), Matrix_diag 1, cs1)
      | (Inr tx, cs1) \<Rightarrow>
          (case eval calc [CHR 0xFF] cs1 of
             (Inl e, cs2) \<Rightarrow> (Some (CalculatorException e), Matrix_diag 1, cs2)
           | (Inr ty, cs2) \<Rightarrow> (None, translate tx ty (Matrix_diag 1), cs2))) \<and>
   parse_string calc ''T1,S'' cs this0 =
     (case eval calc ''1'' cs of
        (Inl e, cs1) \<Rightarrow> (Some (CalculatorException e), Matrix_diag 1, cs1)
      | (Inr tx, cs1) \<Rightarrow> (Some (ParserException ParameterExpected), Matrix_diag 1, cs1))"
proof -
  let ?f = "\<lparr>buf = [], eofbit = True, failbit = True\<rparr>"
  have g: "get (skip_space \<lparr>buf = ''T1,'' @ r, eofbit = False, failbit = False\<rparr>) =
           (Some CHR ''T'', \<lparr>buf = ''1,'' @ r, eofbit = False, failbit = False\<rparr>)" for r
    by (simp add: skip_space_nonspace get_def good_def isspace_def)
  have a1: "getArgument calc d False False \<lparr>buf = ''1,'' @ r, eofbit = False, failbit = False\<rparr> c =
            calc_eval calc ''1'' \<lparr>buf = '','' @ r, eofbit = False, failbit = False\<rparr> c" for d r c
    by (simp add: getArgument_def stream_simps)
  have a2: "getArgument calc d True True \<lparr>buf = '','', eofbit = False, failbit = False\<rparr> c =
            calc_eval calc [CHR 0xFF] ?f c" for d c
    by (simp add: getArgument_def stream_simps)
  have a3: "getArgument calc d True True \<lparr>buf = '',S'', eofbit = False, failbit = False\<rparr> c =
            (Inl (ParserException ParameterExpected), \<lparr>buf = ''S'', eofbit = False, failbit = False\<rparr>, c)" for d c
    by (simp add: getArgument_def stream_simps)
  have c1: "parse_cmd calc m \<lparr>buf = ''T1,'', eofbit = False, failbit = False\<rparr> cs =
            bind_res (calc_eval calc ''1'' \<lparr>buf = '','', eofbit = False, failbit = False\<rparr> cs) (\<lambda>tx s2 cs2.
            bind_res (calc_eval calc [CHR 0xFF] ?f cs2) (\<lambda>ty s3 cs3.
              (Inr (translate tx ty m), s3, cs3)))" for m
    unfolding parse_cmd_def using g [of "[]"] a1 [of _ "[]"] a2
    by (simp add: to_char_def bind_calc_eval split: prod.splits sum.splits)
  have c2: "parse_cmd calc m \<lparr>buf = ''T1,S'', eofbit = False, failbit = False\<rparr> cs =
            bind_res (calc_eval calc ''1'' \<lparr>buf = '',S'', eofbit = False, failbit = False\<rparr> cs) (\<lambda>tx s2 cs2.
              (Inl (ParserException ParameterExpected), \<lparr>buf = ''S'', eofbit = False, failbit = False\<rparr>, cs2))" for m
    unfolding parse_cmd_def using g [of "''S''"] a1 [of _ "''S''"] a3
    by (simp add: to_char_def bind_calc_eval split: prod.splits sum.splits)
  have p1: "parse_string calc ''T1,'' cs this0 =
     (case eval calc ''1'' cs of
        (Inl e, cs1) \<Rightarrow> (Some (CalculatorException e), Matrix_diag 1, cs1)
      | (Inr tx, cs1) \<Rightarrow>
          (case eval calc [CHR 0xFF] cs1 of
             (Inl e, cs2) \<Rightarrow> (Some (CalculatorException e), Matrix_diag 1, cs2)
           | (Inr ty, cs2) \<Rightarrow> (None, translate tx ty (Matrix_diag 1), cs2)))"
    unfolding parse_string_def parse_stream_def istringstream_def
    by (subst parse_loop.simps)
       (simp add: ok_def c1 bind_calc_eval parse_loop_failed split: prod.splits sum.splits)
  have p2: "parse_string calc ''T1,S'' cs this0 =
     (case eval calc ''1'' cs of
        (Inl e, cs1) \<Rightarrow> (Some (CalculatorException e), Matrix_diag 1, cs1)
      | (Inr tx, cs1) \<Rightarrow> (Some (ParserException ParameterExpected), Matrix_diag 1, cs1))"
    unfolding parse_string_def parse_stream_def istringstream_def
    by (subst parse_loop.simps)
       (simp add: ok_def c2 bind_calc_eval split: prod.splits sum.splits)
  show ?thesis using p1 p2 by (rule conjI)
qed

theorem missing_argument_at_end_of_input_witness:
  "parse_string \<lparr>eval = (\<lambda>e c. (Inr 1, c)), getVariable = (\<lambda>n c. (Inr 0, c))\<rparr>
     ''T1,'' () (Matrix_diag 0) = (None, translate 1 1 (Matrix_diag 1), ()) \<and>
   parse_string \<lparr>eval = (\<lambda>e c. (Inr 1, c)), getVariable = (\<lambda>n c. (Inr 0, c))\<rparr>
     ''T1,S'' () (Matrix_diag 0) = (Some (ParserException ParameterExpected), Matrix_diag 1, ())"
  using missing_argument_at_end_of_input
    [of "\<lparr>eval = (\<lambda>e c. (Inr 1, c)), getVariable = (\<lambda>n c. (Inr 0, c))\<rparr>" "()" "Matrix_diag 0"]
  by simp



text \<open>
  C9. \<open>parse\<close> starts with \<open>*this = Matrix(1)\<close>: for every directive string (or stream)
  and every calculator, the exception or matrix that results and the state the calculator
  is left in are the same whatever matrix the receiver held before.
\<close>

theorem parse_ignores_receiver:
  "parse_string calc cmds cs M1 = parse_string calc cmds cs M2 \<and>
   parse_stream calc s cs M1 = parse_stream calc s cs M2"
  by (simp add: parse_string_def parse_stream_def)

theorem parse_ignores_receiver_witness:
  "parse_string \<lparr>eval = (\<lambda>e c. (Inr 2, c)), getVariable = (\<lambda>n c. (Inr 0, c))\<rparr>
     ''S2'' () (Matrix_diag 7) =
   parse_string \<lparr>eval = (\<lambda>e c. (Inr 2, c)), getVariable = (\<lambda>n c. (Inr 0, c))\<rparr>
     ''S2'' () (TranslationMatrix 1 2)"
  using parse_ignores_receiver
    [of "\<lparr>eval = (\<lambda>e c. (Inr 2, c)), getVariable = (\<lambda>n c. (Inr 0, c))\<rparr>" "''S2''" "()"
        "Matrix_diag 7" "TranslationMatrix 1 2"]
  by (rule conjunct1)

text \<open>
  C10. In every round of the loop whose command is \<open>R\<close> the defaults of the centre are
  computed from the calculator's variables \<open>ux\<close>, \<open>w\<close>, \<open>uy\<close> and \<open>h\<close> before the argument
  they stand in for is read, also when the argument is given. If the lookup of one of the
  four names fails, the round ends in an exception, and so does \<open>parse\<close> on a stream that
  begins with the directive, \<open>R90,0,0\<close> for one. Once the angle is read, a failing lookup of
  \<open>ux\<close> or \<open>w\<close> ends the round in the calculator's exception with the stream as the angle
  left it, \<open>cx\<close> unread; where \<open>ux\<close> and \<open>w\<close> are found and \<open>cx\<close> is read, a failing lookup of
  \<open>uy\<close> or \<open>h\<close> ends the round with the stream as \<open>cx\<close> left it, \<open>cy\<close> unread. Where the four
  variables are found, \<open>getArgument\<close> is given the defaults \<open>ux + w/2\<close> and \<open>uy + h/2\<close>, and
  the round multiplies \<open>translate(-x, -y)\<close>, \<open>rotate(a)\<close> and \<open>translate(x, y)\<close> into the
  receiver.
\<close>

theorem R_directive_lookups:
  assumes "get (skip_space s) = (Some CHR ''R'', s1)"
  shows "((\<exists>name \<in> {''ux'', ''w'', ''uy'', ''h''}. lookup_fails calc name) \<longrightarrow>
            (\<exists>e s' cs'. parse_cmd calc m s cs = (Inl e, s', cs')) \<and>
            (\<exists>e. fst (parse_stream calc s cs this0) = Some e)) \<and>
         (getArgument calc 0 False False s1 cs = (Inr a, s2, cs2) \<longrightarrow>
            ((lookup_fails calc ''ux'' \<or> lookup_fails calc ''w'') \<longrightarrow>
               (\<exists>e cs'. parse_cmd calc m s cs = (Inl (CalculatorException e), s2, cs'))) \<and>
            (lookup_succeeds calc ''ux'' \<and> lookup_succeeds calc ''w'' \<and>
             (\<forall>d c. \<exists>x c'. getArgument calc d True True s2 c = (Inr x, s5, c')) \<and>
             (lookup_fails calc ''uy'' \<or> lookup_fails calc ''h'') \<longrightarrow>
               (\<exists>e cs'. parse_cmd calc m s cs = (Inl (CalculatorException e), s5, cs'))) \<and>
            (lookup_returns calc ''ux'' ux \<and> lookup_returns calc ''w'' w \<and>
             lookup_returns calc ''uy'' uy \<and> lookup_returns calc ''h'' h \<and>
             getArgument calc (ux + w / 2) True True s2 cs2 = (Inr x, s6, cs6) \<and>
             getArgument calc (uy + h / 2) True True s6 cs6 = (Inr y, s8, cs8) \<longrightarrow>
               parse_cmd calc m s cs =
                 (Inr (translate x y (rotate_deg a (translate (- x) (- y) m))), s8, cs8)))"
proof (intro conjI impI)
  assume f: "\<exists>name \<in> {''ux'', ''w'', ''uy'', ''h''}. lookup_fails calc name"
  then consider (ux) "lookup_fails calc ''ux''" | (w) "lookup_fails calc ''w''"
    | (uy) "lookup_fails calc ''uy''" | (h) "lookup_fails calc ''h''"
    by auto
  then have t: "throws (parse_cmd calc m' s cs)" for m'
  proof cases
    case ux
    show ?thesis unfolding parse_cmd_R [OF assms]
      by (intro throws_lookup [OF ux] throws_bind)
  next
    case w
    show ?thesis unfolding parse_cmd_R [OF assms]
      by (intro throws_lookup [OF w] throws_bind)
  next
    case uy
    show ?thesis unfolding parse_cmd_R [OF assms]
      by (intro throws_lookup [OF uy] throws_bind)
  next
    case h
    show ?thesis unfolding parse_cmd_R [OF assms]
      by (intro throws_lookup [OF h] throws_bind)
  qed
  from t [of m] show "\<exists>e s' cs'. parse_cmd calc m s cs = (Inl e, s', cs')"
    by (simp add: throws_def)
  from t [of "Matrix_diag 1"] obtain e s' cs' where
    c: "parse_cmd calc (Matrix_diag 1) s cs = (Inl e, s', cs')"
    unfolding throws_def by blast
  have "parse_loop calc (Matrix_diag 1) s cs = (Some e, Matrix_diag 1, s', cs')"
    using skip_space_get_ok [OF assms] by (subst parse_loop.simps) (simp add: c)
  then show "\<exists>e. fst (parse_stream calc s cs this0) = Some e"
    by (simp add: parse_stream_def)
next
  assume a: "getArgument calc 0 False False s1 cs = (Inr a, s2, cs2)"
    and f: "lookup_fails calc ''ux'' \<or> lookup_fails calc ''w''"
  show "\<exists>e cs'. parse_cmd calc m s cs = (Inl (CalculatorException e), s2, cs')"
  proof (cases "getVariable calc ''ux'' cs2")
    case (Pair r c3)
    show ?thesis
    proof (cases r)
      case (Inl e)
      then show ?thesis
        unfolding parse_cmd_R [OF assms] a using Pair by (simp add: bind_calc_getVariable)
    next
      case (Inr v)
      then have "\<not> lookup_fails calc ''ux''" using Pair by (metis Pair_inject sum.distinct(1))
      then have "lookup_fails calc ''w''" using f by blast
      then obtain e c' where "getVariable calc ''w'' c3 = (Inl e, c')" by blast
      then show ?thesis
        unfolding parse_cmd_R [OF assms] a using Pair Inr by (simp add: bind_calc_getVariable)
    qed
  qed
next
  assume a: "getArgument calc 0 False False s1 cs = (Inr a, s2, cs2)"
    and h: "lookup_succeeds calc ''ux'' \<and> lookup_succeeds calc ''w'' \<and>
             (\<forall>d c. \<exists>x c'. getArgument calc d True True s2 c = (Inr x, s5, c')) \<and>
             (lookup_fails calc ''uy'' \<or> lookup_fails calc ''h'')"
  obtain vx c3 where 1: "getVariable calc ''ux'' cs2 = (Inr vx, c3)" using h by blast
  obtain vw c4 where 2: "getVariable calc ''w'' c3 = (Inr vw, c4)" using h by blast
  obtain x c5 where 3: "getArgument calc (vx + vw / 2) True True s2 c4 = (Inr x, s5, c5)"
    using h by blast
  show "\<exists>e cs'. parse_cmd calc m s cs = (Inl (CalculatorException e), s5, cs')"
  proof (cases "getVariable calc ''uy'' c5")
    case (Pair r c6)
    show ?thesis
    proof (cases r)
      case (Inl e)
      then show ?thesis
        unfolding parse_cmd_R [OF assms] a using Pair 1 2 3 by (simp add: bind_calc_getVariable)
    next
      case (Inr v)
      then have "\<not> lookup_fails calc ''uy''" using Pair by (metis Pair_inject sum.distinct(1))
      then have "lookup_fails calc ''h''" using h by blast
      then obtain e c' where "getVariable calc ''h'' c6 = (Inl e, c')" by blast
      then show ?thesis
        unfolding parse_cmd_R [OF assms] a using Pair Inr 1 2 3
        by (simp add: bind_calc_getVariable)
    qed
  qed
next
  assume a: "getArgument calc 0 False False s1 cs = (Inr a, s2, cs2)"
    and h: "lookup_returns calc ''ux'' ux \<and> lookup_returns calc ''w'' w \<and>
             lookup_returns calc ''uy'' uy \<and> lookup_returns calc ''h'' h \<and>
             getArgument calc (ux + w / 2) True True s2 cs2 = (Inr x, s6, cs6) \<and>
             getArgument calc (uy + h / 2) True True s6 cs6 = (Inr y, s8, cs8)"
  show "parse_cmd calc m s cs =
          (Inr (translate x y (rotate_deg a (translate (- x) (- y) m))), s8, cs8)"
    unfolding parse_cmd_R [OF assms] a using h by (simp add: bind_calc_getVariable)
qed

theorem R_directive_lookups_witness:
  "(\<exists>e. fst (parse_stream
     \<lparr>eval = (\<lambda>e c. if e = ''90'' then (Inr 90, c) else if e = ''0'' then (Inr 0, c)
                      else (Inl ''expression syntax error'', c)),
      getVariable = (\<lambda>n c. if n = ''h'' then (Inl ''undefined'', c) else (Inr 0, c))\<rparr>
     (istringstream ''R90,0,0'') () (Matrix_diag 0)) = Some e) \<and>
   (\<exists>e cs'. parse_cmd
     \<lparr>eval = (\<lambda>e c. if e = ''90'' then (Inr 90, c) else if e = ''0'' then (Inr 0, c)
                      else (Inl ''expression syntax error'', c)),
      getVariable = (\<lambda>n c. if n = ''h'' then (Inl ''undefined'', c) else (Inr 0, c))\<rparr>
     (Matrix_diag 1) (istringstream ''R90,0,0'') () =
     (Inl (CalculatorException e), \<lparr>buf = '',0'', eofbit = False, failbit = False\<rparr>, cs')) \<and>
   (\<exists>e cs'. parse_cmd
     \<lparr>eval = (\<lambda>e c. if e = ''90'' then (Inr 90, c) else if e = ''0'' then (Inr 0, c)
                      else (Inl ''expression syntax error'', c)),
      getVariable = (\<lambda>n c. if n = ''w'' then (Inl ''undefined'', c) else (Inr 0, c))\<rparr>
     (Matrix_diag 1) (istringstream ''R90,0,0'') () =
     (Inl (CalculatorException e), \<lparr>buf = '',0,0'', eofbit = False, failbit = False\<rparr>, cs')) \<and>
   parse_cmd
     \<lparr>eval = (\<lambda>e c. if e = ''90'' then (Inr 90, c) else if e = ''0'' then (Inr 0, c)
                      else (Inl ''expression syntax error'', c)),
      getVariable = (\<lambda>n c. if n = ''ux'' then (Inr 10, c) else if n = ''w'' then (Inr 4, c)
                      else if n = ''uy'' then (Inr 20, c) else (Inr 6, c))\<rparr>
     (Matrix_diag 1) (istringstream ''R90T5'') () =
     (Inr (translate 12 23 (rotate_deg 90 (translate (- 12) (- 23) (Matrix_diag 1)))),
      \<lparr>buf = ''T5'', eofbit = False, failbit = False\<rparr>, ())"
proof -
  let ?H = "\<lparr>eval = (\<lambda>e c. if e = ''90'' then (Inr 90, c) else if e = ''0'' then (Inr 0, c)
                      else (Inl ''expression syntax error'', c)),
      getVariable = (\<lambda>n c. if n = ''h'' then (Inl ''undefined'', c) else (Inr (0::real), c))\<rparr> :: unit Calculator"
  let ?W = "\<lparr>eval = (\<lambda>e c. if e = ''90'' then (Inr 90, c) else if e = ''0'' then (Inr 0, c)
                      else (Inl ''expression syntax error'', c)),
      getVariable = (\<lambda>n c. if n = ''w'' then (Inl ''undefined'', c) else (Inr (0::real), c))\<rparr> :: unit Calculator"
  let ?P = "\<lparr>eval = (\<lambda>e c. if e = ''90'' then (Inr 90, c) else if e = ''0'' then (Inr 0, c)
                      else (Inl ''expression syntax error'', c)),
      getVariable = (\<lambda>n c. if n = ''ux'' then (Inr 10, c) else if n = ''w'' then (Inr 4, c)
                      else if n = ''uy'' then (Inr 20, c) else (Inr 6, c))\<rparr> :: unit Calculator"
  have g: "get (skip_space (istringstream ''R90,0,0'')) = (Some CHR ''R'', \<lparr>buf = ''90,0,0'', eofbit = False, failbit = False\<rparr>)"
    by (simp add: istringstream_def skip_space_nonspace get_def good_def isspace_def)
  have g': "get (skip_space (istringstream ''R90T5'')) = (Some CHR ''R'', \<lparr>buf = ''90T5'', eofbit = False, failbit = False\<rparr>)"
    by (simp add: istringstream_def skip_space_nonspace get_def good_def isspace_def)
  have aH: "getArgument ?H 0 False False \<lparr>buf = ''90,0,0'', eofbit = False, failbit = False\<rparr> () = (Inr 90, \<lparr>buf = '',0,0'', eofbit = False, failbit = False\<rparr>, ())"
    by (simp add: getArgument_def stream_simps calc_eval_def)
  have aW: "getArgument ?W 0 False False \<lparr>buf = ''90,0,0'', eofbit = False, failbit = False\<rparr> () = (Inr 90, \<lparr>buf = '',0,0'', eofbit = False, failbit = False\<rparr>, ())"
    by (simp add: getArgument_def stream_simps calc_eval_def)
  have aP: "getArgument ?P 0 False False \<lparr>buf = ''90T5'', eofbit = False, failbit = False\<rparr> () = (Inr 90, \<lparr>buf = ''T5'', eofbit = False, failbit = False\<rparr>, ())"
    by (simp add: getArgument_def stream_simps calc_eval_def)
  have xH: "\<forall>d c. \<exists>x c'. getArgument ?H d True True \<lparr>buf = '',0,0'', eofbit = False, failbit = False\<rparr> c = (Inr x, \<lparr>buf = '',0'', eofbit = False, failbit = False\<rparr>, c')"
    by (simp add: getArgument_def stream_simps calc_eval_def)
  have xP: "getArgument ?P (10 + 4 / 2) True True \<lparr>buf = ''T5'', eofbit = False, failbit = False\<rparr> () = (Inr 12, \<lparr>buf = ''T5'', eofbit = False, failbit = False\<rparr>, ())"
    by (simp add: getArgument_def stream_simps)
  have yP: "getArgument ?P (20 + 6 / 2) True True \<lparr>buf = ''T5'', eofbit = False, failbit = False\<rparr> () = (Inr 23, \<lparr>buf = ''T5'', eofbit = False, failbit = False\<rparr>, ())"
    by (simp add: getArgument_def stream_simps)
  have fH: "\<exists>name \<in> {''ux'', ''w'', ''uy'', ''h''}. lookup_fails ?H name" by simp
  have hH: "lookup_succeeds ?H ''ux'' \<and> lookup_succeeds ?H ''w'' \<and>
      (\<forall>d c. \<exists>x c'. getArgument ?H d True True \<lparr>buf = '',0,0'', eofbit = False, failbit = False\<rparr> c = (Inr x, \<lparr>buf = '',0'', eofbit = False, failbit = False\<rparr>, c')) \<and>
      (lookup_fails ?H ''uy'' \<or> lookup_fails ?H ''h'')"
    using xH by simp
  have hW: "lookup_fails ?W ''ux'' \<or> lookup_fails ?W ''w''" by simp
  have hP: "lookup_returns ?P ''ux'' 10 \<and> lookup_returns ?P ''w'' 4 \<and>
      lookup_returns ?P ''uy'' 20 \<and> lookup_returns ?P ''h'' 6 \<and>
      getArgument ?P (10 + 4 / 2) True True \<lparr>buf = ''T5'', eofbit = False, failbit = False\<rparr> () = (Inr 12, \<lparr>buf = ''T5'', eofbit = False, failbit = False\<rparr>, ()) \<and>
      getArgument ?P (20 + 6 / 2) True True \<lparr>buf = ''T5'', eofbit = False, failbit = False\<rparr> () = (Inr 23, \<lparr>buf = ''T5'', eofbit = False, failbit = False\<rparr>, ())"
    using xP yP by simp
  note tH = R_directive_lookups [OF g, of ?H "Matrix_diag 1" "()" "Matrix_diag 0" 90
      "\<lparr>buf = '',0,0'', eofbit = False, failbit = False\<rparr>" "()" "\<lparr>buf = '',0'', eofbit = False, failbit = False\<rparr>"]
  note tW = R_directive_lookups [OF g, of ?W "Matrix_diag 1" "()" "Matrix_diag 0" 90
      "\<lparr>buf = '',0,0'', eofbit = False, failbit = False\<rparr>" "()"]
  note tP = R_directive_lookups [OF g', of ?P "Matrix_diag 1" "()" "Matrix_diag 0" 90
      "\<lparr>buf = ''T5'', eofbit = False, failbit = False\<rparr>" "()" _ 10 4 20 6 12 "\<lparr>buf = ''T5'', eofbit = False, failbit = False\<rparr>" "()" 23 "\<lparr>buf = ''T5'', eofbit = False, failbit = False\<rparr>" "()"]
  have 1: "\<exists>e. fst (parse_stream ?H (istringstream ''R90,0,0'') () (Matrix_diag 0)) = Some e"
    using tH fH by blast
  have 2: "\<exists>e cs'. parse_cmd ?H (Matrix_diag 1) (istringstream ''R90,0,0'') () =
             (Inl (CalculatorException e), \<lparr>buf = '',0'', eofbit = False, failbit = False\<rparr>, cs')"
    using tH aH hH by blast
  have 3: "\<exists>e cs'. parse_cmd ?W (Matrix_diag 1) (istringstream ''R90,0,0'') () =
             (Inl (CalculatorException e), \<lparr>buf = '',0,0'', eofbit = False, failbit = False\<rparr>, cs')"
    using tW aW hW by blast
  have 4: "parse_cmd ?P (Matrix_diag 1) (istringstream ''R90T5'') () =
             (Inr (translate 12 23 (rotate_deg 90 (translate (- 12) (- 23) (Matrix_diag 1)))),
              \<lparr>buf = ''T5'', eofbit = False, failbit = False\<rparr>, ())"
    using tP aP hP by blast
  from 1 2 3 4 show ?thesis by blast
qed

end
